theory Spec2Isabelle
  imports
    Complex_Main
    "HOL-Library.Log_Nat"
    "HOL-Library.Sublist"
    "HOL-Library.Char_ord"
    "HOL-Library.List_Lexorder"
    "HOL-Library.Product_Lexorder"
begin

section \<open>Library \<open>node\<close>: Travis tags and the node version catalog\<close>

subsection \<open>\<open>toTravisTags\<close>\<close>

text \<open>
  The argument of \<open>toTravisTags\<close> is typed \<open>string | string[]\<close> and is tested for
  falsiness first: \<open>undefined\<close>, \<open>null\<close> and the empty string give the empty list,
  a single string is wrapped into a one-element array, an array (also the empty one,
  which is truthy) is used as it is.
\<close>

datatype tags_arg = NoTags | OneTag string | TagList "string list"

text \<open>
  One iteration of the \<open>for\<close> loop. The \<open>switch\<close> case for \<open>stable\<close> and \<open>lts\<close>
  pushes \<open>lts/*\<close> and has no \<open>break\<close>, so control falls through into the case
  for \<open>latest\<close>, which pushes \<open>node\<close>.
\<close>

fun pushTag :: "string list \<Rightarrow> string \<Rightarrow> string list" where
  "pushTag travisTags tag =
     (if tag = ''stable'' \<or> tag = ''lts'' then (travisTags @ [''lts/*'']) @ [''node'']
      else if tag = ''latest'' then travisTags @ [''node'']
      else travisTags @ [tag])"

definition pushedTags :: "string list \<Rightarrow> string list" where
  "pushedTags tags = foldl pushTag [] tags"

text \<open>\<open>Array.prototype.indexOf\<close>: the first index holding the element, or \<open>-1\<close>.\<close>

fun indexOf_from :: "'a list \<Rightarrow> 'a \<Rightarrow> nat \<Rightarrow> int" where
  "indexOf_from [] x k = - 1"
| "indexOf_from (y # ys) x k = (if y = x then int k else indexOf_from ys x (Suc k))"

definition indexOf :: "'a list \<Rightarrow> 'a \<Rightarrow> int" where
  "indexOf xs x = indexOf_from xs x 0"

text \<open>\<open>Array.prototype.filter\<close> with a callback that also receives the index.\<close>

fun filter_idx :: "('a \<Rightarrow> nat \<Rightarrow> bool) \<Rightarrow> nat \<Rightarrow> 'a list \<Rightarrow> 'a list" where
  "filter_idx p i [] = []"
| "filter_idx p i (x # xs) =
     (if p x i then x # filter_idx p (Suc i) xs else filter_idx p (Suc i) xs)"

definition uniqueTags :: "string list \<Rightarrow> string list" where
  "uniqueTags travisTags =
     filter_idx (\<lambda>tag i. indexOf travisTags tag = int i) 0 travisTags"

fun toTravisTags :: "tags_arg \<Rightarrow> string list" where
  "toTravisTags NoTags = []"
| "toTravisTags (OneTag t) = (if t = [] then [] else uniqueTags (pushedTags [t]))"
| "toTravisTags (TagList ts) = uniqueTags (pushedTags ts)"

text \<open>
  The Travis tags that one node tag stands for, read off the \<open>switch\<close>: the
  list that the converted input is the concatenation of.
\<close>

definition travis_of :: "string \<Rightarrow> string list" where
  "travis_of tag =
     (if tag = ''stable'' \<or> tag = ''lts'' then [''lts/*'', ''node'']
      else if tag = ''latest'' then [''node'']
      else [tag])"

subsection \<open>\<open>nodeVersion\<close>\<close>

text \<open>
  An entry of the catalog fetched from nodejs.org. Only the two fields that
  \<open>nodeVersion\<close> reads are kept; \<open>lts\<close> is typed \<open>boolean | string\<close> (the release
  line's code name, or \<open>false\<close>).
\<close>

datatype lts_flag = LtsBool bool | LtsName string

record NodeVersion =
  version :: string
  lts :: lts_flag




subsection \<open>\<open>semverCompare\<close>\<close>

text \<open>
  Modelled from the spec: \<open>semverCompare\<close> calls \<open>semver.gt\<close> and \<open>semver.lt\<close> of
  the package \<open>semver\<close>, whose code is not among the sources. The spec names their order
  the standard semantic-version precedence, so versions, their grammar and their
  comparison are modelled after Semantic Versioning 2.0.0: three numeric fields, an
  optional list of prerelease identifiers after a hyphen and optional build metadata after
  a plus sign. Numeric identifiers have no leading zero. Both functions throw on a string
  that is not a version.
\<close>

datatype prerelease_id = Numeric nat | Alphanumeric string

record SemVer =
  major :: nat
  minor :: nat
  patch :: nat
  prerelease :: "prerelease_id list"
  build :: "string list"

datatype semver_error = InvalidVersion

definition is_digit :: "char \<Rightarrow> bool" where
  "is_digit c = (CHR ''0'' \<le> c \<and> c \<le> CHR ''9'')"

definition is_ident_char :: "char \<Rightarrow> bool" where
  "is_ident_char c =
     (is_digit c \<or> (CHR ''a'' \<le> c \<and> c \<le> CHR ''z'') \<or> (CHR ''A'' \<le> c \<and> c \<le> CHR ''Z'')
      \<or> c = CHR ''-'')"

fun split_on :: "char \<Rightarrow> string \<Rightarrow> string list" where
  "split_on sep [] = [[]]"
| "split_on sep (c # cs) =
     (if c = sep then [] # split_on sep cs
      else (case split_on sep cs of [] \<Rightarrow> [[c]] | w # ws \<Rightarrow> (c # w) # ws))"

definition break_at :: "char \<Rightarrow> string \<Rightarrow> string \<times> string option" where
  "break_at sep s =
     (takeWhile (\<lambda>c. c \<noteq> sep) s,
      case dropWhile (\<lambda>c. c \<noteq> sep) s of [] \<Rightarrow> None | _ # rest \<Rightarrow> Some rest)"

definition digits_value :: "string \<Rightarrow> nat" where
  "digits_value s = foldl (\<lambda>n c. 10 * n + (of_char c - 48)) 0 s"

definition numeric_identifier :: "string \<Rightarrow> bool" where
  "numeric_identifier s = (s \<noteq> [] \<and> list_all is_digit s \<and> (s = ''0'' \<or> hd s \<noteq> CHR ''0''))"

definition parse_numeric :: "string \<Rightarrow> nat option" where
  "parse_numeric s = (if numeric_identifier s then Some (digits_value s) else None)"

definition parse_prerelease_identifier :: "string \<Rightarrow> prerelease_id option" where
  "parse_prerelease_identifier s =
     (if s = [] \<or> \<not> list_all is_ident_char s then None
      else if list_all is_digit s then map_option Numeric (parse_numeric s)
      else Some (Alphanumeric s))"

definition build_identifier :: "string \<Rightarrow> bool" where
  "build_identifier s = (s \<noteq> [] \<and> list_all is_ident_char s)"

fun those_list :: "'a option list \<Rightarrow> 'a list option" where
  "those_list [] = Some []"
| "those_list (None # xs) = None"
| "those_list (Some x # xs) = map_option ((#) x) (those_list xs)"

definition parse_main :: "string \<Rightarrow> (nat \<times> nat \<times> nat) option" where
  "parse_main core =
     (case map parse_numeric (split_on CHR ''.'' core) of
        [Some ma, Some mi, Some pa] \<Rightarrow> Some (ma, mi, pa)
      | _ \<Rightarrow> None)"

definition parse_prerelease :: "string option \<Rightarrow> prerelease_id list option" where
  "parse_prerelease pre =
     (case pre of
        None \<Rightarrow> Some []
      | Some p \<Rightarrow> those_list (map parse_prerelease_identifier (split_on CHR ''.'' p)))"

definition parse_build :: "string option \<Rightarrow> string list option" where
  "parse_build bld =
     (case bld of
        None \<Rightarrow> Some []
      | Some b \<Rightarrow>
          if list_all build_identifier (split_on CHR ''.'' b)
          then Some (split_on CHR ''.'' b) else None)"

definition parse :: "string \<Rightarrow> SemVer option" where
  "parse s =
     (case break_at CHR ''+'' s of (core_pre, bld) \<Rightarrow>
     (case break_at CHR ''-'' core_pre of (core, pre) \<Rightarrow>
     (case parse_main core of None \<Rightarrow> None | Some (ma, mi, pa) \<Rightarrow>
     (case parse_prerelease pre of None \<Rightarrow> None | Some ids \<Rightarrow>
     (case parse_build bld of None \<Rightarrow> None | Some bs \<Rightarrow>
        Some \<lparr>major = ma, minor = mi, patch = pa, prerelease = ids, build = bs\<rparr>)))))"

text \<open>
  Modelled from the spec: the comparison of two versions, in the steps of the package
  (main fields first, then prerelease identifiers one by one; a numeric identifier is
  below an alphanumeric one, alphanumeric ones compare as strings, a version without
  prerelease identifiers is above one with them, and build metadata is ignored).
\<close>

fun compareNumbers :: "nat \<Rightarrow> nat \<Rightarrow> int" where
  "compareNumbers a b = (if a < b then - 1 else if b < a then 1 else 0)"

fun compareIdentifiers :: "prerelease_id \<Rightarrow> prerelease_id \<Rightarrow> int" where
  "compareIdentifiers (Numeric a) (Numeric b) = compareNumbers a b"
| "compareIdentifiers (Numeric a) (Alphanumeric b) = - 1"
| "compareIdentifiers (Alphanumeric a) (Numeric b) = 1"
| "compareIdentifiers (Alphanumeric a) (Alphanumeric b) =
     (if a < b then - 1 else if b < a then 1 else 0)"

definition compareMain :: "SemVer \<Rightarrow> SemVer \<Rightarrow> int" where
  "compareMain x y =
     (if compareNumbers (major x) (major y) \<noteq> 0 then compareNumbers (major x) (major y)
      else if compareNumbers (minor x) (minor y) \<noteq> 0 then compareNumbers (minor x) (minor y)
      else compareNumbers (patch x) (patch y))"

fun comparePreLoop :: "prerelease_id list \<Rightarrow> prerelease_id list \<Rightarrow> int" where
  "comparePreLoop [] [] = 0"
| "comparePreLoop (a # as) [] = 1"
| "comparePreLoop [] (b # bs) = - 1"
| "comparePreLoop (a # as) (b # bs) =
     (if a = b then comparePreLoop as bs else compareIdentifiers a b)"

definition comparePre :: "SemVer \<Rightarrow> SemVer \<Rightarrow> int" where
  "comparePre x y =
     (if prerelease x \<noteq> [] \<and> prerelease y = [] then - 1
      else if prerelease x = [] \<and> prerelease y \<noteq> [] then 1
      else if prerelease x = [] \<and> prerelease y = [] then 0
      else comparePreLoop (prerelease x) (prerelease y))"

definition compare :: "SemVer \<Rightarrow> SemVer \<Rightarrow> int" where
  "compare x y = (if compareMain x y \<noteq> 0 then compareMain x y else comparePre x y)"

definition semver_compare :: "string \<Rightarrow> string \<Rightarrow> semver_error + int" where
  "semver_compare a b =
     (case parse a of None \<Rightarrow> Inl InvalidVersion
      | Some x \<Rightarrow> (case parse b of None \<Rightarrow> Inl InvalidVersion | Some y \<Rightarrow> Inr (compare x y)))"

definition semver_gt :: "string \<Rightarrow> string \<Rightarrow> semver_error + bool" where
  \<comment> \<open>Modelled from the spec: \<open>semver.gt(a, b)\<close> is \<open>compare(a, b) > 0\<close>.\<close>
  "semver_gt a b = map_sum id (\<lambda>c. c > 0) (semver_compare a b)"

definition semver_lt :: "string \<Rightarrow> string \<Rightarrow> semver_error + bool" where
  \<comment> \<open>Modelled from the spec: \<open>semver.lt(a, b)\<close> is \<open>compare(a, b) < 0\<close>.\<close>
  "semver_lt a b = map_sum id (\<lambda>c. c < 0) (semver_compare a b)"

text \<open>
  \<open>semverCompare\<close> itself, from the source:
  \<open>semver.gt(a, b) ? -1 : semver.lt(a, b) ? 1 : 0\<close>.
\<close>

definition semverCompare :: "string \<Rightarrow> string \<Rightarrow> semver_error + int" where
  "semverCompare a b =
     (case semver_gt a b of
        Inl e \<Rightarrow> Inl e
      | Inr True \<Rightarrow> Inr (- 1)
      | Inr False \<Rightarrow>
          (case semver_lt a b of Inl e \<Rightarrow> Inl e | Inr True \<Rightarrow> Inr 1 | Inr False \<Rightarrow> Inr 0))"

text \<open>
  The precedence of Semantic Versioning 2.0.0 stated as one lexicographic order: the key
  of a version lists its main fields, then whether it is a release (1) or a prerelease
  (0), then its prerelease identifiers, a numeric identifier keyed below every
  alphanumeric one. A version has higher precedence when its key is greater.
\<close>

fun identifier_key :: "prerelease_id \<Rightarrow> nat \<times> nat \<times> string" where
  "identifier_key (Numeric n) = (0, n, [])"
| "identifier_key (Alphanumeric s) = (1, 0, s)"

definition precedence_key ::
  "SemVer \<Rightarrow> nat \<times> nat \<times> nat \<times> nat \<times> (nat \<times> nat \<times> string) list" where
  "precedence_key x =
     (major x, minor x, patch x, if prerelease x = [] then 1 else 0,
      map identifier_key (prerelease x))"

definition order_sign :: "'a::linorder \<Rightarrow> 'a \<Rightarrow> int" where
  "order_sign x y = (if x < y then - 1 else if y < x then 1 else 0)"

definition higher_precedence :: "SemVer \<Rightarrow> SemVer \<Rightarrow> bool" where
  "higher_precedence x y = (precedence_key y < precedence_key x)"

section \<open>JavaScript numbers: comparison and increment\<close>









section \<open>Library \<open>travis\<close>: enabling builds\<close>











section \<open>JavaScript strings: \<open>String.prototype.replace\<close>\<close>

text \<open>
  The position of the first occurrence of a pattern, given as the text on its left and
  the text on its right; \<open>None\<close> when the pattern does not occur.
\<close>

fun split_first :: "'a list \<Rightarrow> 'a list \<Rightarrow> ('a list \<times> 'a list) option" where
  "split_first pat [] = (if pat = [] then Some ([], []) else None)"
| "split_first pat (c # cs) =
     (if prefix pat (c # cs) then Some ([], drop (length pat) (c # cs))
      else map_option (\<lambda>(left, right). (c # left, right)) (split_first pat cs))"

text \<open>
  The expansion of a replacement string (\<open>GetSubstitution\<close> of the language
  standard) for a match without capture groups: \<open>$$\<close> is a dollar sign, \<open>$&\<close> the
  matched text, \<open>$`\<close> the text on the left of the match and \<open>$'\<close> the text on its
  right; every other character, also a dollar sign followed by anything else, stands for
  itself.
\<close>

fun getSubstitution :: "string \<Rightarrow> string \<Rightarrow> string \<Rightarrow> string \<Rightarrow> string" where
  "getSubstitution matched left right [] = []"
| "getSubstitution matched left right [c] = [c]"
| "getSubstitution matched left right (c # d # rest) =
     (if c = CHR ''$'' \<and> d = CHR ''$'' then CHR ''$'' # getSubstitution matched left right rest
      else if c = CHR ''$'' \<and> d = CHR ''&'' then matched @ getSubstitution matched left right rest
      else if c = CHR ''$'' \<and> d = CHR 0x60 then left @ getSubstitution matched left right rest
      else if c = CHR ''$'' \<and> d = CHR 0x27 then right @ getSubstitution matched left right rest
      else c # getSubstitution matched left right (d # rest))"

text \<open>
  \<open>s.replace(pat, replacement)\<close> with a string pattern: only the first occurrence is
  replaced.
\<close>

definition replaceString :: "string \<Rightarrow> string \<Rightarrow> string \<Rightarrow> string" where
  "replaceString pat replacement s =
     (case split_first pat s of
        None \<Rightarrow> s
      | Some (left, right) \<Rightarrow> left @ getSubstitution pat left right replacement @ right)"

text \<open>The decimal digits of a non-negative integer, as \<open>String(n)\<close> gives them.\<close>

definition digit_char :: "nat \<Rightarrow> char" where
  "digit_char n = ''0123456789'' ! n"

fun decimal :: "nat \<Rightarrow> string" where
  "decimal n = (if n < 10 then [digit_char n] else decimal (n div 10) @ [digit_char (n mod 10)])"

declare decimal.simps [simp del]

text \<open>
  \<open>s.replace(new RegExp(pat, 'g'), replacement)\<close> for a pattern without
  metacharacters, which matches its own text: the matches are found from left to right
  and do not overlap, and each is replaced by the expansion of the replacement string,
  in which \<open>$`\<close> and \<open>$'\<close> refer to the original string. The third argument is
  the text already passed.
\<close>

function replaceGlobalFrom :: "string \<Rightarrow> string \<Rightarrow> string \<Rightarrow> string \<Rightarrow> string" where
  "replaceGlobalFrom pat replacement left [] = []"
| "replaceGlobalFrom pat replacement left (c # cs) =
     (if pat \<noteq> [] \<and> prefix pat (c # cs) then
        getSubstitution pat left (drop (length pat) (c # cs)) replacement
          @ replaceGlobalFrom pat replacement (left @ pat) (drop (length pat) (c # cs))
      else c # replaceGlobalFrom pat replacement (left @ [c]) cs)"
  by pat_completeness auto
termination
  by (relation "measure (\<lambda>(pat, replacement, left, s). length s)") auto

section \<open>JavaScript objects: \<open>Object.keys\<close>\<close>

text \<open>
  An object with string values, as the list of its own properties in the order of their
  creation, each key once. \<open>Object.keys\<close> lists the keys that are array indices
  (canonical decimal numbers below \<open>2^32 - 1\<close>) first, in ascending order, and the
  other keys after them in creation order.
\<close>

type_synonym js_object = "(string \<times> string) list"

definition is_array_index :: "string \<Rightarrow> bool" where
  "is_array_index k = (numeric_identifier k \<and> digits_value k < 4294967295)"

definition object_keys :: "js_object \<Rightarrow> string list" where
  "object_keys obj =
     sort_key digits_value (filter is_array_index (map fst obj))
       @ filter (\<lambda>k. \<not> is_array_index k) (map fst obj)"

section \<open>Command \<open>update-version\<close>: the git flow over service folders\<close>























section \<open>Command \<open>service create\<close>\<close>

subsection \<open>License text\<close>

text \<open>
  \<open>updateLicenseText\<close>: the loop over \<open>Object.keys(values)\<close>, which lists the five
  keys in the order of the object literal, replaces \<open>[varName]\<close> in the text by the
  value. The year is \<open>new Date().getFullYear()\<close>, a number, here the first argument.
\<close>

definition updateLicenseText ::
  "nat \<Rightarrow> string \<Rightarrow> string \<Rightarrow> string \<Rightarrow> string \<Rightarrow> string \<Rightarrow> string" where
  "updateLicenseText year text author email serviceName homepage =
     foldl (\<lambda>text (varName, v). replaceString (''['' @ varName @ '']'') v text) text
       [(''year'', decimal year), (''fullname'', author), (''email'', email),
        (''project'', serviceName), (''project_url'', homepage)]"

text \<open>
  What the specification says of one placeholder: the first occurrence of the exact
  bracketed token is replaced by the supplied value, literally, and nothing else changes.
\<close>

definition replace_first_literal :: "string \<Rightarrow> string \<Rightarrow> string \<Rightarrow> string" where
  "replace_first_literal tok v s =
     (case split_first tok s of None \<Rightarrow> s | Some (pre, post) \<Rightarrow> pre @ v @ post)"

subsection \<open>Template compilation\<close>

text \<open>
  \<open>compileTemplateFile\<close>: for each key of the tag object, in the order of
  \<open>Object.keys\<close>, every match of the regular expression \<open>%<tag>\<close> is replaced by
  \<open>tags[tag]\<close>. The tag is compiled into the expression as it is; the model matches
  the text \<open>%<tag>\<close>, which is what the expression does for a tag made of letters,
  digits and underscores.
\<close>

definition replaceTag :: "string \<Rightarrow> string \<Rightarrow> string \<Rightarrow> string" where
  "replaceTag tag replacement s = replaceGlobalFrom (CHR ''%'' # tag) replacement [] s"

definition compileTemplateFile :: "string \<Rightarrow> js_object \<Rightarrow> string" where
  "compileTemplateFile text tags =
     foldl (\<lambda>text tag. case map_of tags tag of None \<Rightarrow> text
                        | Some v \<Rightarrow> replaceTag tag v text)
       text (object_keys tags)"

text \<open>
  The directory tree: directories and regular files, without symbolic links or special
  files. A file carries whether it can be read and written, whether its bytes are
  well-formed UTF-8, and the text that decoding its bytes as UTF-8 gives (for bytes that are
  not well-formed, the text with the replacement characters of the decoder). A directory
  carries whether its entries can be listed, and lists them by name, in the order of
  \<open>readdirSync\<close>.
\<close>

datatype fs_node = File bool bool string | Dir bool "(string \<times> fs_node) list"

datatype fs_error = EACCES | ENOTDIR

text \<open>
  \<open>compileTemplate\<close> and the body of its \<open>forEach\<close>: a directory entry is compiled
  recursively, any other entry is read with the encoding \<open>utf8\<close>, compiled and written
  back with the encoding \<open>utf8\<close>: the bytes written are the encoding of the compiled text,
  which is well-formed whatever the bytes read were. Reading the entries of something that
  is not a directory or of a directory that cannot be listed, and reading or writing an
  inaccessible file, throw; the files written before stay written.
\<close>

fun compileTemplate :: "fs_node \<Rightarrow> js_object \<Rightarrow> fs_error option \<times> fs_node"
  and compileEntries ::
    "(string \<times> fs_node) list \<Rightarrow> js_object \<Rightarrow> fs_error option \<times> (string \<times> fs_node) list" where
  "compileTemplate (File ok utf8 content) tags = (Some ENOTDIR, File ok utf8 content)"
| "compileTemplate (Dir listable entries) tags =
     (if listable then
        (case compileEntries entries tags of (err, entries') \<Rightarrow> (err, Dir listable entries'))
      else (Some EACCES, Dir listable entries))"
| "compileEntries [] tags = (None, [])"
| "compileEntries ((file, Dir listable sub) # rest) tags =
     (case compileTemplate (Dir listable sub) tags of
        (Some err, node) \<Rightarrow> (Some err, (file, node) # rest)
      | (None, node) \<Rightarrow>
          (case compileEntries rest tags of (err, rest') \<Rightarrow> (err, (file, node) # rest')))"
| "compileEntries ((file, File ok utf8 content) # rest) tags =
     (if ok then
        (case compileEntries rest tags of
           (err, rest') \<Rightarrow>
             (err, (file, File ok True (compileTemplateFile content tags)) # rest'))
      else (Some EACCES, (file, File ok utf8 content) # rest))"

text \<open>
  What the specification says, in its own terms: every regular file of the tree gets a
  new content and the tree is otherwise the same; no file or directory is created or
  deleted, that is, the names in the tree and what each of them is, a file or a directory,
  stay as they are; every occurrence of a token, from left to right, is replaced by the
  value.
\<close>

fun map_files :: "(string \<Rightarrow> string) \<Rightarrow> fs_node \<Rightarrow> fs_node" where
  "map_files f (File ok utf8 content) = File ok utf8 (f content)"
| "map_files f (Dir listable entries) =
     Dir listable (map (\<lambda>e. (fst e, map_files f (snd e))) entries)"

datatype tree_shape = FileShape | DirShape "(string \<times> tree_shape) list"

fun shape :: "fs_node \<Rightarrow> tree_shape" where
  "shape (File ok utf8 content) = FileShape"
| "shape (Dir listable entries) = DirShape (map (\<lambda>e. (fst e, shape (snd e))) entries)"





subsection \<open>The handler\<close>

text \<open>
  The stages that the handler awaits in its \<open>try\<close> block. A stage either completes or
  throws; \<open>createGitRepo\<close> sets the module variable \<open>gitRepoInitialized\<close> when it
  reaches its end, which it does not when the user declines the GitHub integration.
\<close>

datatype stage = BuildFromTemplate | CreateGitRepo | BuildDockerCi | InstallPackages | Commit

record create_world =
  throws :: "stage \<Rightarrow> bool"
  repoCreated :: bool

record create_argv =
  path :: string
  noInstall :: bool

datatype create_event =
    Completed stage
  | Threw stage
  | LogSuccess
  | Rmdir string
  | PrintError

definition runStage ::
  "create_world \<Rightarrow> stage \<Rightarrow> create_event list \<Rightarrow> create_event list + create_event list" where
  "runStage w s tr = (if throws w s then Inl (tr @ [Threw s]) else Inr (tr @ [Completed s]))"

text \<open>
  Sequencing inside the \<open>try\<close> block: \<open>Inl\<close> carries the events up to a throw,
  which skips what follows; \<open>Inr\<close> those of a run that goes on.
\<close>

definition andThen ::
  "create_event list + create_event list \<Rightarrow> (create_event list \<Rightarrow> create_event list + create_event list)
     \<Rightarrow> create_event list + create_event list" where
  "andThen r rest = (case r of Inl tr \<Rightarrow> Inl tr | Inr tr \<Rightarrow> rest tr)"

definition tryBlock :: "create_world \<Rightarrow> create_argv \<Rightarrow> create_event list + create_event list" where
  "tryBlock w argv =
     andThen (runStage w BuildFromTemplate []) (\<lambda>tr.
     andThen (runStage w CreateGitRepo tr) (\<lambda>tr.
     let gitRepoInitialized = repoCreated w in
     andThen (runStage w BuildDockerCi tr) (\<lambda>tr.
     andThen (if \<not> noInstall argv then runStage w InstallPackages tr else Inr tr) (\<lambda>tr.
     andThen (if gitRepoInitialized then runStage w Commit tr else Inr tr) (\<lambda>tr.
     Inr (tr @ [LogSuccess]))))))"

text \<open>
  The handler. In the \<open>catch\<close> block the service directory is removed when
  \<open>argv.path && (argv.path !== '.' || argv.path !== './')\<close>; the empty string is
  falsy. \<open>Rmdir p\<close> stands for \<open>rmdir(resolve(p))\<close>.
\<close>

definition handler :: "create_world \<Rightarrow> create_argv \<Rightarrow> create_event list" where
  "handler w argv =
     (case tryBlock w argv of
        Inr tr \<Rightarrow> tr
      | Inl tr \<Rightarrow>
          (if path argv \<noteq> [] \<and> (path argv \<noteq> ''.'' \<or> path argv \<noteq> ''./'')
           then tr @ [Rmdir (path argv)] else tr) @ [PrintError])"

section \<open>Example inputs\<close>








text \<open>A run of \<open>service create\<close> in which fetching the template throws.\<close>

definition template_missing :: create_world where
  "template_missing = \<lparr>throws = (\<lambda>s. s = BuildFromTemplate), repoCreated = False\<rparr>"



section \<open>Properties\<close>

subsection \<open>Searching a list\<close>



subsection \<open>Removing duplicates by first index\<close>

lemma indexOf_from_range:
  "x \<in> set xs \<Longrightarrow>
     int k \<le> indexOf_from xs x k \<and> indexOf_from xs x k < int k + int (length xs)"
proof (induction xs arbitrary: k)
  case Nil
  then show ?case by simp
next
  case (Cons y ys)
  show ?case
  proof (cases "y = x")
    case True
    then show ?thesis by simp
  next
    case False
    with Cons.prems have "x \<in> set ys" by simp
    from Cons.IH[OF this, of "Suc k"] False show ?thesis by simp
  qed
qed

lemma indexOf_from_nth: "x \<in> set xs \<Longrightarrow> xs ! (nat (indexOf_from xs x k) - k) = x"
proof (induction xs arbitrary: k)
  case Nil
  then show ?case by simp
next
  case (Cons y ys)
  show ?case
  proof (cases "y = x")
    case True
    then show ?thesis by simp
  next
    case False
    with Cons.prems have m: "x \<in> set ys" by simp
    from indexOf_from_range[OF m, of "Suc k"]
    have "int (Suc k) \<le> indexOf_from ys x (Suc k)" by simp
    then have "nat (indexOf_from ys x (Suc k)) - k
               = Suc (nat (indexOf_from ys x (Suc k)) - Suc k)" by linarith
    with False Cons.IH[OF m, of "Suc k"] show ?thesis by simp
  qed
qed

lemma filter_idx_subset: "set (filter_idx p k xs) \<subseteq> set xs"
  by (induction xs arbitrary: k) auto

lemma filter_idx_keeps:
  "i < length xs \<Longrightarrow> p (xs ! i) (k + i) \<Longrightarrow> xs ! i \<in> set (filter_idx p k xs)"
proof (induction xs arbitrary: k i)
  case Nil
  then show ?case by simp
next
  case (Cons y ys)
  show ?case
  proof (cases i)
    case 0
    with Cons.prems show ?thesis by simp
  next
    case (Suc j)
    with Cons.prems have "j < length ys" "p (ys ! j) (Suc k + j)" by simp_all
    from Cons.IH[OF this] Suc show ?thesis by simp
  qed
qed

lemma filter_idx_lower:
  "y \<in> set (filter_idx (\<lambda>t i. f t = int i) k xs) \<Longrightarrow> int k \<le> f y"
proof (induction xs arbitrary: k)
  case Nil
  then show ?case by simp
next
  case (Cons x xs)
  show ?case
  proof (cases "y \<in> set (filter_idx (\<lambda>t i. f t = int i) (Suc k) xs)")
    case True
    from Cons.IH[OF this] show ?thesis by simp
  next
    case False
    with Cons.prems show ?thesis by (simp split: if_splits)
  qed
qed

lemma filter_idx_sorted:
  "sorted_wrt (<) (map f (filter_idx (\<lambda>t i. f t = int i) k xs))"
proof (induction xs arbitrary: k)
  case Nil
  then show ?case by simp
next
  case (Cons x xs)
  have "\<And>y. y \<in> set (filter_idx (\<lambda>t i. f t = int i) (Suc k) xs) \<Longrightarrow> int k < f y"
    using filter_idx_lower[of _ f "Suc k" xs] by force
  with Cons.IH[of "Suc k"] show ?case by auto
qed

lemma set_uniqueTags: "set (uniqueTags ts) = set ts"
proof
  show "set (uniqueTags ts) \<subseteq> set ts"
    unfolding uniqueTags_def by (rule filter_idx_subset)
  show "set ts \<subseteq> set (uniqueTags ts)"
  proof
    fix x assume m: "x \<in> set ts"
    let ?i = "nat (indexOf ts x)"
    from indexOf_from_range[OF m, of 0] have b: "0 \<le> indexOf ts x" "?i < length ts"
      unfolding indexOf_def by linarith+
    from indexOf_from_nth[OF m, of 0] have n: "ts ! ?i = x" by (simp add: indexOf_def)
    have "ts ! ?i \<in> set (filter_idx (\<lambda>tag i. indexOf ts tag = int i) 0 ts)"
      by (rule filter_idx_keeps) (use b n in simp_all)
    with n show "x \<in> set (uniqueTags ts)" by (simp add: uniqueTags_def)
  qed
qed

lemma sorted_uniqueTags: "sorted_wrt (<) (map (indexOf ts) (uniqueTags ts))"
  unfolding uniqueTags_def by (rule filter_idx_sorted)

lemma distinct_uniqueTags: "distinct (uniqueTags ts)"
proof -
  have "distinct (map (indexOf ts) (uniqueTags ts))"
    using sorted_uniqueTags[of ts] by (simp add: strict_sorted_iff)
  then show ?thesis by (rule distinct_map[THEN iffD1, THEN conjunct1])
qed

lemma filter_idx_subseq: "subseq (filter_idx p k xs) xs"
  by (induction xs arbitrary: k) auto

lemma toTravisTags_cases:
  "toTravisTags a = [] \<or> (\<exists>ts. toTravisTags a = uniqueTags ts)"
  by (cases a) auto

lemma indexOf_from_append_in:
  "x \<in> set xs \<Longrightarrow> indexOf_from (xs @ ys) x k = indexOf_from xs x k"
  by (induction xs arbitrary: k) auto

lemma indexOf_from_append_notin:
  "x \<notin> set xs \<Longrightarrow> indexOf_from (xs @ ys) x k = indexOf_from ys x (k + length xs)"
  by (induction xs arbitrary: k) auto

lemma filter_idx_append:
  "filter_idx p k (xs @ ys) = filter_idx p k xs @ filter_idx p (k + length xs) ys"
  by (induction xs arbitrary: k) auto

lemma filter_idx_cong_set:
  "(\<And>x i. x \<in> set xs \<Longrightarrow> p x i = q x i) \<Longrightarrow> filter_idx p k xs = filter_idx q k xs"
  by (induction xs arbitrary: k) auto

lemma uniqueTags_snoc:
  "uniqueTags (xs @ [x]) = uniqueTags xs @ (if x \<in> set xs then [] else [x])"
proof -
  have a: "filter_idx (\<lambda>tag i. indexOf (xs @ [x]) tag = int i) 0 xs
           = filter_idx (\<lambda>tag i. indexOf xs tag = int i) 0 xs"
    by (rule filter_idx_cong_set) (simp add: indexOf_def indexOf_from_append_in)
  have b: "filter_idx (\<lambda>tag i. indexOf (xs @ [x]) tag = int i) (0 + length xs) [x]
           = (if x \<in> set xs then [] else [x])"
  proof (cases "x \<in> set xs")
    case True
    from indexOf_from_range[OF True, of 0] have "indexOf_from xs x 0 \<noteq> int (length xs)" by simp
    with True show ?thesis by (simp add: indexOf_def indexOf_from_append_in)
  next
    case False
    then show ?thesis by (simp add: indexOf_def indexOf_from_append_notin)
  qed
  show ?thesis
    unfolding uniqueTags_def filter_idx_append a b ..
qed

lemma uniqueTags_first_occurrences: "uniqueTags xs = rev (remdups (rev xs))"
proof (induction xs rule: rev_induct)
  case Nil
  show ?case by (simp add: uniqueTags_def)
next
  case (snoc x xs)
  then show ?case by (simp add: uniqueTags_snoc)
qed

lemma foldl_pushTag: "foldl pushTag acc tags = acc @ concat (map travis_of tags)"
  by (induction tags arbitrary: acc) (simp_all add: travis_of_def)

lemma pushedTags_concat: "pushedTags tags = concat (map travis_of tags)"
  by (simp add: pushedTags_def foldl_pushTag)

text \<open>
  C4: \<open>toTravisTags(["stable","latest"])\<close> is \<open>["lts/*","node"]\<close>. For every input
  the output has no duplicates. For every input list the tags pushed are the Travis tags
  of the input tags, in the order of the input, and the output is that list with every
  element kept at its first occurrence only: it is a subsequence of the pushed tags with
  the same elements, and the positions at which its elements were first pushed are
  strictly increasing.
\<close>

theorem toTravisTags_first_seen:
  "toTravisTags (TagList [''stable'', ''latest'']) = [''lts/*'', ''node'']
   \<and> distinct (toTravisTags a)
   \<and> set (toTravisTags (TagList tags)) = set (pushedTags tags)
   \<and> subseq (toTravisTags (TagList tags)) (pushedTags tags)
   \<and> sorted_wrt (<) (map (indexOf (pushedTags tags)) (toTravisTags (TagList tags)))
   \<and> pushedTags tags = concat (map travis_of tags)
   \<and> travis_of t = (if t = ''stable'' \<or> t = ''lts'' then [''lts/*'', ''node'']
                     else if t = ''latest'' then [''node''] else [t])
   \<and> toTravisTags (TagList tags) = rev (remdups (rev (concat (map travis_of tags))))
   \<and> toTravisTags (OneTag t)
       = (if t = [] then [] else rev (remdups (rev (travis_of t))))
   \<and> toTravisTags NoTags = []"
proof -
  have ex: "toTravisTags (TagList [''stable'', ''latest'']) = [''lts/*'', ''node'']"
    by (simp add: uniqueTags_def pushedTags_def indexOf_def)
  have d: "distinct (toTravisTags a)"
    using toTravisTags_cases[of a] distinct_uniqueTags by auto
  have s: "set (toTravisTags (TagList tags)) = set (pushedTags tags)"
    by (simp add: set_uniqueTags)
  have q: "subseq (toTravisTags (TagList tags)) (pushedTags tags)"
    by (simp add: uniqueTags_def filter_idx_subseq)
  have o: "sorted_wrt (<) (map (indexOf (pushedTags tags)) (toTravisTags (TagList tags)))"
    by (simp add: sorted_uniqueTags)
  have p: "pushedTags tags = concat (map travis_of tags)"
    by (rule pushedTags_concat)
  have v: "travis_of t = (if t = ''stable'' \<or> t = ''lts'' then [''lts/*'', ''node'']
                     else if t = ''latest'' then [''node''] else [t])"
    by (simp add: travis_of_def)
  have l: "toTravisTags (TagList tags) = rev (remdups (rev (concat (map travis_of tags))))"
    by (simp add: uniqueTags_first_occurrences pushedTags_concat)
  have n: "toTravisTags (OneTag t)
       = (if t = [] then [] else rev (remdups (rev (travis_of t))))"
    by (simp add: uniqueTags_first_occurrences pushedTags_concat)
  have z: "toTravisTags NoTags = []" by simp
  from ex d s q o p v l n z show ?thesis by blast
qed

text \<open>
  C10: a lone \<open>stable\<close> tag, and likewise a lone \<open>lts\<close> tag, yields both Travis
  tags, \<open>lts/*\<close> from its own case and \<open>node\<close> from the case it falls through to.
\<close>

theorem toTravisTags_fallthrough:
  "toTravisTags (TagList [''stable'']) = [''lts/*'', ''node'']
   \<and> toTravisTags (TagList [''lts'']) = [''lts/*'', ''node'']
   \<and> pushTag [] ''stable'' = [''lts/*'', ''node'']
   \<and> pushTag [] ''lts'' = [''lts/*'', ''node'']"
  by (simp add: uniqueTags_def pushedTags_def indexOf_def)

subsection \<open>Resolving symbolic node tags\<close>



subsection \<open>Comparing semantic versions\<close>

lemma identifier_key_inj: "identifier_key a = identifier_key b \<longleftrightarrow> a = b"
  by (cases a; cases b) auto

lemma compareIdentifiers_key:
  "compareIdentifiers a b = order_sign (identifier_key a) (identifier_key b)"
  by (cases a; cases b) (auto simp: order_sign_def)

lemma comparePreLoop_key:
  "comparePreLoop as bs = order_sign (map identifier_key as) (map identifier_key bs)"
proof (induction as bs rule: comparePreLoop.induct)
  case (4 a as b bs)
  show ?case
  proof (cases "a = b")
    case True
    with 4 show ?thesis by (simp add: order_sign_def)
  next
    case False
    then have "identifier_key a \<noteq> identifier_key b" by (simp add: identifier_key_inj)
    with False show ?thesis
      by (auto simp: compareIdentifiers_key order_sign_def)
  qed
qed (simp_all add: order_sign_def)

lemma compareNumbers_sign: "compareNumbers a b = order_sign a b"
  by (simp add: order_sign_def)

lemma order_sign_pair:
  "order_sign (a, x) (b, y) = (if order_sign a b \<noteq> 0 then order_sign a b else order_sign x y)"
  by (auto simp: order_sign_def)

lemma comparePre_key:
  "comparePre x y =
     order_sign (if prerelease x = [] then 1 else 0 :: nat, map identifier_key (prerelease x))
                (if prerelease y = [] then 1 else 0, map identifier_key (prerelease y))"
proof -
  consider "prerelease x = []" "prerelease y = []" | "prerelease x = []" "prerelease y \<noteq> []"
    | "prerelease x \<noteq> []" "prerelease y = []" | "prerelease x \<noteq> []" "prerelease y \<noteq> []"
    by blast
  then show ?thesis
  proof cases
    case 4
    then show ?thesis
      by (simp add: comparePre_def comparePreLoop_key order_sign_pair) (simp add: order_sign_def)
  qed (simp_all add: comparePre_def order_sign_def)
qed

lemma compare_key: "compare x y = order_sign (precedence_key x) (precedence_key y)"
  unfolding compare_def compareMain_def precedence_key_def compareNumbers_sign comparePre_key
  by (simp only: order_sign_pair) simp

lemma order_sign_flip: "order_sign y x = - order_sign x y"
  by (auto simp: order_sign_def)

lemma order_sign_zero: "order_sign x y = 0 \<longleftrightarrow> x = y"
  by (auto simp: order_sign_def)

lemma order_sign_neg: "order_sign x y < 0 \<longleftrightarrow> x < y"
  by (auto simp: order_sign_def)

lemma order_sign_pos: "order_sign x y > 0 \<longleftrightarrow> y < x"
  by (auto simp: order_sign_def)

lemma semverCompare_valid:
  "parse a = Some x \<Longrightarrow> parse b = Some y \<Longrightarrow>
   semverCompare a b = Inr (order_sign (precedence_key y) (precedence_key x))"
  by (auto simp: semverCompare_def semver_gt_def semver_lt_def semver_compare_def compare_key
      order_sign_def split: sum.splits bool.splits)

lemma precedence_key_eq:
  "precedence_key x = precedence_key y
     \<longleftrightarrow> major x = major y \<and> minor x = minor y \<and> patch x = patch y
          \<and> prerelease x = prerelease y"
proof -
  have "inj identifier_key" by (rule injI) (simp add: identifier_key_inj)
  then have "map identifier_key (prerelease x) = map identifier_key (prerelease y)
               \<longleftrightarrow> prerelease x = prerelease y"
    by (simp add: inj_map_eq_map)
  then show ?thesis by (auto simp: precedence_key_def)
qed

text \<open>
  C8: on valid semantic versions \<open>semverCompare\<close> returns exactly one of -1, 0 and 1;
  it returns -1 exactly when the first version has the higher precedence, 1 exactly when
  the second has, and 0 exactly when the two agree in all fields but the build metadata;
  swapping the arguments swaps -1 and 1; the order is transitive; and
  \<open>semverCompare("2.0.0","1.9.9") = -1\<close>, \<open>semverCompare("1.0.0","1.0.0") = 0\<close>.
\<close>

theorem semverCompare_total_order:
  assumes "parse a = Some x" and "parse b = Some y" and "parse c = Some z"
  shows "semverCompare a b \<in> {Inr (- 1), Inr 0, Inr 1}
    \<and> (semverCompare a b = Inr (- 1) \<longleftrightarrow> higher_precedence x y)
    \<and> (semverCompare a b = Inr 1 \<longleftrightarrow> higher_precedence y x)
    \<and> (semverCompare a b = Inr 0
         \<longleftrightarrow> major x = major y \<and> minor x = minor y \<and> patch x = patch y
              \<and> prerelease x = prerelease y)
    \<and> (semverCompare b a = Inr 1 \<longleftrightarrow> semverCompare a b = Inr (- 1))
    \<and> (semverCompare b a = Inr 0 \<longleftrightarrow> semverCompare a b = Inr 0)
    \<and> (semverCompare a b = Inr (- 1) \<and> semverCompare b c = Inr (- 1)
         \<longrightarrow> semverCompare a c = Inr (- 1))
    \<and> (semverCompare a b \<noteq> Inr 1 \<and> semverCompare b c \<noteq> Inr 1
         \<longrightarrow> semverCompare a c \<noteq> Inr 1)
    \<and> semverCompare a a = Inr 0
    \<and> semverCompare ''2.0.0'' ''1.9.9'' = Inr (- 1)
    \<and> semverCompare ''1.0.0'' ''1.0.0'' = Inr 0"
proof -
  note ab = semverCompare_valid[OF assms(1) assms(2)]
  note ba = semverCompare_valid[OF assms(2) assms(1)]
  note bc = semverCompare_valid[OF assms(2) assms(3)]
  note ac = semverCompare_valid[OF assms(1) assms(3)]
  note aa = semverCompare_valid[OF assms(1) assms(1)]
  have 1: "semverCompare a b \<in> {Inr (- 1), Inr 0, Inr 1}"
    by (simp add: ab order_sign_def)
  have 2: "semverCompare a b = Inr (- 1) \<longleftrightarrow> higher_precedence x y"
    by (auto simp: ab order_sign_def higher_precedence_def)
  have 3: "semverCompare a b = Inr 1 \<longleftrightarrow> higher_precedence y x"
    by (auto simp: ab order_sign_def higher_precedence_def)
  have "semverCompare a b = Inr 0 \<longleftrightarrow> precedence_key x = precedence_key y"
    by (auto simp: ab order_sign_def)
  then have 4: "semverCompare a b = Inr 0
         \<longleftrightarrow> major x = major y \<and> minor x = minor y \<and> patch x = patch y
              \<and> prerelease x = prerelease y"
    by (simp add: precedence_key_eq)
  have 5: "semverCompare b a = Inr 1 \<longleftrightarrow> semverCompare a b = Inr (- 1)"
    by (auto simp: ab ba order_sign_def)
  have 6: "semverCompare b a = Inr 0 \<longleftrightarrow> semverCompare a b = Inr 0"
    by (auto simp: ab ba order_sign_def)
  have 7: "semverCompare a b = Inr (- 1) \<and> semverCompare b c = Inr (- 1)
         \<longrightarrow> semverCompare a c = Inr (- 1)"
    by (auto simp: ab bc ac order_sign_def split: if_splits)
  have 8: "semverCompare a b \<noteq> Inr 1 \<and> semverCompare b c \<noteq> Inr 1
         \<longrightarrow> semverCompare a c \<noteq> Inr 1"
    by (auto simp: ab bc ac order_sign_def split: if_splits)
  have 9: "semverCompare a a = Inr 0"
    by (simp add: aa order_sign_def)
  have 10: "semverCompare ''2.0.0'' ''1.9.9'' = Inr (- 1)"
    by code_simp
  have 11: "semverCompare ''1.0.0'' ''1.0.0'' = Inr 0"
    by code_simp
  from 1 2 3 4 5 6 7 8 9 10 11 show ?thesis by blast
qed

theorem semverCompare_total_order_witness:
  "semverCompare ''2.0.0'' ''1.9.9-rc.1'' = Inr (- 1)
   \<and> semverCompare ''1.9.9'' ''2.0.0'' = Inr 1
   \<and> semverCompare ''2.0.0'' ''2.0.0'' = Inr 0"
proof -
  have a: "parse ''2.0.0'' = Some \<lparr>major = 2, minor = 0, patch = 0, prerelease = [], build = []\<rparr>"
    by code_simp
  have b: "parse ''1.9.9'' = Some \<lparr>major = 1, minor = 9, patch = 9, prerelease = [], build = []\<rparr>"
    by code_simp
  have c: "parse ''1.9.9-rc.1''
             = Some \<lparr>major = 1, minor = 9, patch = 9,
                     prerelease = [Alphanumeric ''rc'', Numeric 1], build = []\<rparr>"
    by code_simp
  have bc: "semverCompare ''1.9.9'' ''1.9.9-rc.1'' = Inr (- 1)"
    by code_simp
  from semverCompare_total_order[OF a b c] bc show ?thesis by simp
qed

subsection \<open>The bounded retry of the Travis sync\<close>

















subsection \<open>Enabling builds\<close>





subsection \<open>Replacing in strings\<close>

lemma getSubstitution_plain:
  "CHR ''$'' \<notin> set r \<Longrightarrow> getSubstitution m b a r = r"
  by (induction m b a r rule: getSubstitution.induct) auto

lemma split_first_None: "split_first pat s = None \<longleftrightarrow> \<not> sublist pat s"
  by (induction s) (auto simp: sublist_Cons_right)

lemma prefix_overlap:
  assumes "prefix tok (p @ tok @ post)" and "p \<noteq> []" 
  shows "prefix tok (p @ butlast tok)"
proof (cases "tok = []")
  case True then show ?thesis by simp
next
  case False
  then have l: "length tok \<le> length (p @ butlast tok)" using assms(2) by (cases p) auto
  have "prefix (p @ butlast tok) (p @ tok @ post)"
    using False by (metis append_butlast_last_id append.assoc prefixI same_prefix_prefix)
  with assms(1) l show ?thesis
    by (metis prefix_length_prefix)
qed

lemma split_first_first:
  "tok \<noteq> [] \<Longrightarrow> \<not> sublist tok (pre @ butlast tok) \<Longrightarrow>
   split_first tok (pre @ tok @ post) = Some (pre, post)"
proof (induction pre)
  case Nil
  then obtain c cs where "tok @ post = c # cs" by (cases tok) auto
  then show ?case by (metis append_eq_conv_conj append_Nil prefixI split_first.simps(2))
next
  case (Cons c pre)
  have np: "\<not> prefix tok ((c # pre) @ tok @ post)"
    using prefix_overlap[of tok "c # pre" post] Cons.prems(2) by auto
  have "\<not> sublist tok (pre @ butlast tok)"
    using Cons.prems(2) by (simp add: sublist_Cons_right)
  with Cons.IH Cons.prems(1) np show ?case by simp
qed

lemma digit_char_plain: "n < 10 \<Longrightarrow> digit_char n \<noteq> CHR ''$''"
proof -
  assume "n < 10"
  then have "''0123456789'' ! n \<in> set ''0123456789''" by (intro nth_mem) simp
  then show ?thesis unfolding digit_char_def by auto
qed

lemma decimal_plain: "CHR ''$'' \<notin> set (decimal n)"
proof (induction n rule: decimal.induct)
  case (1 n)
  show ?case
  proof (cases "n < 10")
    case True
    then show ?thesis using digit_char_plain[of n] by (simp add: decimal.simps[of n])
  next
    case False
    have "n mod 10 < 10" by simp
    from digit_char_plain[OF this] "1.IH"[OF False] False show ?thesis
      by (simp add: decimal.simps[of n])
  qed
qed

lemma replaceString_plain:
  "CHR ''$'' \<notin> set v \<Longrightarrow> replaceString tok v s = replace_first_literal tok v s"
  by (simp add: replaceString_def replace_first_literal_def getSubstitution_plain
      split: option.splits)






subsection \<open>The git flow stops at a failed checkout and the walk goes on\<close>














subsection \<open>Compiling a template\<close>




lemma shape_map_files: "shape (map_files f node) = shape node"
  by (induction node rule: shape.induct) (auto simp: comp_def)

text \<open>
  A file whose bytes are not well-formed UTF-8 is rewritten, also when no tag occurs in
  it: the bytes written encode the decoded text.
\<close>

lemma compileTemplate_rewrites_other_encodings:
  "compileTemplate (Dir True [(''f'', File True False ''abc'')]) [(''A'', ''x'')]
     = (None, Dir True [(''f'', File True True ''abc'')])"
  by code_simp

text \<open>A directory that cannot be listed ends the compilation.\<close>

lemma compileTemplate_unlistable:
  "compileTemplate (Dir True [(''d'', Dir False es), (''f'', File True True ''%A'')])
       [(''A'', ''x'')]
     = (Some EACCES, Dir True [(''d'', Dir False es), (''f'', File True True ''%A'')])"
  by simp




subsection \<open>Placeholders of the license text\<close>

text \<open>
  C6 (as amended): the five keys are substituted one after the other, in the order
  \<open>year\<close>, \<open>fullname\<close>, \<open>email\<close>, \<open>project\<close>, \<open>project_url\<close>, each in
  the text left by the keys before it. For values without dollar signs, a step replaces
  only the first occurrence in that text of the exact bracketed token by the supplied
  value: a text without the token is unchanged, and in a text \<open>pre @ token @ post\<close>
  where the token does not occur earlier, \<open>pre\<close> and \<open>post\<close>, with all later
  occurrences of the token, are unchanged.
\<close>

theorem updateLicenseText_first_occurrence:
  assumes "CHR ''$'' \<notin> set author \<union> set email \<union> set serviceName \<union> set homepage"
  shows "updateLicenseText year body author email serviceName homepage
           = replace_first_literal ''[project_url]'' homepage
              (replace_first_literal ''[project]'' serviceName
                (replace_first_literal ''[email]'' email
                  (replace_first_literal ''[fullname]'' author
                    (replace_first_literal ''[year]'' (decimal year) body))))
    \<and> (\<not> sublist tok s \<longrightarrow> replace_first_literal tok v s = s)
    \<and> (tok \<noteq> [] \<and> \<not> sublist tok (pre @ butlast tok) \<longrightarrow>
           replace_first_literal tok v (pre @ tok @ post) = pre @ v @ post)"
proof (intro conjI impI)
  show "updateLicenseText year body author email serviceName homepage
           = replace_first_literal ''[project_url]'' homepage
              (replace_first_literal ''[project]'' serviceName
                (replace_first_literal ''[email]'' email
                  (replace_first_literal ''[fullname]'' author
                    (replace_first_literal ''[year]'' (decimal year) body))))"
    using assms by (simp add: updateLicenseText_def replaceString_plain decimal_plain)
next
  assume "\<not> sublist tok s"
  then have "split_first tok s = None" by (simp add: split_first_None)
  then show "replace_first_literal tok v s = s" by (simp add: replace_first_literal_def)
next
  assume "tok \<noteq> [] \<and> \<not> sublist tok (pre @ butlast tok)"
  then have "split_first tok (pre @ tok @ post) = Some (pre, post)"
    by (simp add: split_first_first)
  then show "replace_first_literal tok v (pre @ tok @ post) = pre @ v @ post"
    by (simp add: replace_first_literal_def)
qed

text \<open>
  The claim as written fails on the body itself: a value that contains a later token is
  substituted in the next step, and the first occurrence of that token in the license
  body is left in place.
\<close>

theorem updateLicenseText_counterexample:
  "updateLicenseText 2018 ''[fullname] wrote to [email]'' ''[email]'' ''a@x.io'' ''svc'' ''h''
     = ''a@x.io wrote to [email]''
   \<and> updateLicenseText 2018 ''[fullname] wrote to [email]'' ''[email]'' ''a@x.io'' ''svc'' ''h''
     \<noteq> ''[email] wrote to a@x.io''"
  by code_simp

theorem updateLicenseText_first_occurrence_witness:
  "updateLicenseText 2018 ''(c) [year] [fullname] <[email]>, [year]'' ''Ann'' ''a@x.io'' ''svc'' ''h''
     = ''(c) 2018 Ann <a@x.io>, [year]''
   \<and> replace_first_literal ''[year]'' ''2018'' ''(c) [year] [fullname] <[email]>, [year]''
     = ''(c) 2018 [fullname] <[email]>, [year]''
   \<and> replace_first_literal ''[project]'' ''svc'' ''(c) 2018 Ann <a@x.io>, [year]''
     = ''(c) 2018 Ann <a@x.io>, [year]''"
proof -
  have d: "CHR ''$'' \<notin> set ''Ann'' \<union> set ''a@x.io'' \<union> set ''svc'' \<union> set ''h''"
    by simp
  have n: "''[year]'' \<noteq> [] \<and> \<not> sublist ''[year]'' (''(c) '' @ butlast ''[year]'')"
    by code_simp
  have m: "\<not> sublist ''[project]'' ''(c) 2018 Ann <a@x.io>, [year]''"
    by code_simp
  note t1 = updateLicenseText_first_occurrence[OF d, where year = "2018"
      and body = "''(c) [year] [fullname] <[email]>, [year]''"
      and tok = "''[year]''" and v = "''2018''" and pre = "''(c) ''"
      and post = "'' [fullname] <[email]>, [year]''"]
  note t2 = updateLicenseText_first_occurrence[OF d, where year = "2018"
      and body = "''(c) [year] [fullname] <[email]>, [year]''"
      and tok = "''[project]''" and s = "''(c) 2018 Ann <a@x.io>, [year]''" and v = "''svc''"]
  have e: "replace_first_literal ''[project_url]'' ''h''
              (replace_first_literal ''[project]'' ''svc''
                (replace_first_literal ''[email]'' ''a@x.io''
                  (replace_first_literal ''[fullname]'' ''Ann''
                    (replace_first_literal ''[year]'' (decimal 2018)
                       ''(c) [year] [fullname] <[email]>, [year]''))))
           = ''(c) 2018 Ann <a@x.io>, [year]''"
    by code_simp
  from t1 n have a: "replace_first_literal ''[year]'' ''2018''
       (''(c) '' @ ''[year]'' @ '' [fullname] <[email]>, [year]'')
     = ''(c) '' @ ''2018'' @ '' [fullname] <[email]>, [year]''" by blast
  from t2 m have b: "replace_first_literal ''[project]'' ''svc'' ''(c) 2018 Ann <a@x.io>, [year]''
     = ''(c) 2018 Ann <a@x.io>, [year]''" by blast
  from t1 e have c: "updateLicenseText 2018 ''(c) [year] [fullname] <[email]>, [year]'' ''Ann'' ''a@x.io'' ''svc'' ''h''
     = ''(c) 2018 Ann <a@x.io>, [year]''" by simp
  from a b c show ?thesis by simp
qed

subsection \<open>Cleanup after a failed service creation\<close>

text \<open>
  C3: the claim says that nothing is deleted when the path argument is the current
  directory. On the code it is: with the path \<open>.\<close> (the default of the option) and a
  first stage that throws, the remaining stages are skipped and the handler removes the
  directory \<open>.\<close>, because the test \<open>path !== '.' || path !== './'\<close> holds for every
  string.
\<close>

theorem handler_removes_current_directory:
  "handler template_missing \<lparr>path = ''.'', noInstall = False\<rparr>
     = [Threw BuildFromTemplate, Rmdir ''.'', PrintError]
   \<and> handler template_missing \<lparr>path = ''./'', noInstall = False\<rparr>
     = [Threw BuildFromTemplate, Rmdir ''./'', PrintError]"
  by (simp add: handler_def tryBlock_def andThen_def runStage_def template_missing_def)

theorem handler_removes_current_directory_witness:
  "Rmdir ''.'' \<in> set (handler template_missing \<lparr>path = ''.'', noInstall = False\<rparr>)
   \<and> Completed CreateGitRepo
       \<notin> set (handler template_missing \<lparr>path = ''.'', noInstall = False\<rparr>)"
  using handler_removes_current_directory by simp

end
